theory Spec2Isabelle
  imports Main "HOL-Library.Sublist"
begin

section \<open>Python values and the operations the merge uses\<close>

text \<open>
  The merge in \<^verbatim>\<open>src/lambdas/src/main.py\<close> works on what the extraction agents hand
  over: nested dictionaries and lists as \<^verbatim>\<open>json\<close> produces them. A value is therefore
  dynamically typed, and every attribute access, subscript or iteration of the source can
  raise. Numbers are the integers (floating point numbers are left out), a dictionary is
  its list of items in insertion order, and a string is its list of characters.
\<close>

datatype pyval =
    PNone
  | PBool bool
  | PInt int
  | PStr string
  | PList "pyval list"
  | PDict "(pyval \<times> pyval) list"

datatype error = AttributeError | TypeError | ValueError | KeyError | IndexError

type_synonym pydict = "(pyval \<times> pyval) list"

text \<open>\<^verbatim>\<open>bool(v)\<close>, as \<^verbatim>\<open>if v:\<close> and \<^verbatim>\<open>v or []\<close> test it.\<close>

fun truthy :: "pyval \<Rightarrow> bool" where
  "truthy PNone = False"
| "truthy (PBool b) = b"
| "truthy (PInt i) = (i \<noteq> 0)"
| "truthy (PStr s) = (s \<noteq> [])"
| "truthy (PList xs) = (xs \<noteq> [])"
| "truthy (PDict d) = (d \<noteq> [])"

text \<open>\<^verbatim>\<open>hash(v)\<close> succeeds on the scalars and raises TypeError on a list or a dictionary.\<close>

fun hashable :: "pyval \<Rightarrow> bool" where
  "hashable (PList xs) = False"
| "hashable (PDict d) = False"
| "hashable v = True"

text \<open>
  Python's \<^verbatim>\<open>==\<close> on hashable values: \<^verbatim>\<open>True == 1\<close> and \<^verbatim>\<open>False == 0\<close>, otherwise values
  of different types differ. \<open>hash_norm\<close> picks one representative per class of equal
  scalars. The source compares, hashes and looks up only values that are hashable (an
  unhashable one has raised before), which is where \<open>py_eq\<close> is Python's \<^verbatim>\<open>==\<close>.
\<close>

fun hash_norm :: "pyval \<Rightarrow> pyval" where
  "hash_norm (PBool b) = PInt (if b then 1 else 0)"
| "hash_norm v = v"

definition py_eq :: "pyval \<Rightarrow> pyval \<Rightarrow> bool" where
  "py_eq a b = (hash_norm a = hash_norm b)"

text \<open>Dictionary lookup and item assignment; an assignment to a key keeps its place.\<close>

fun dict_lookup :: "pydict \<Rightarrow> pyval \<Rightarrow> pyval option" where
  "dict_lookup [] k = None"
| "dict_lookup ((k', v) # d) k = (if py_eq k' k then Some v else dict_lookup d k)"

fun dict_store :: "pydict \<Rightarrow> pyval \<Rightarrow> pyval \<Rightarrow> pydict" where
  "dict_store [] k v = [(k, v)]"
| "dict_store ((k', v') # d) k v =
     (if py_eq k' k then (k', v) # d else (k', v') # dict_store d k v)"

text \<open>\<^verbatim>\<open>x.get(key, default)\<close> with a string key: only a dictionary has \<^verbatim>\<open>get\<close>.\<close>

fun py_get :: "pyval \<Rightarrow> string \<Rightarrow> pyval \<Rightarrow> error + pyval" where
  "py_get (PDict d) k dflt =
     Inr (case dict_lookup d (PStr k) of Some v \<Rightarrow> v | None \<Rightarrow> dflt)"
| "py_get v k dflt = Inl AttributeError"

text \<open>\<^verbatim>\<open>x[key]\<close> with a string key.\<close>

fun py_subscript :: "pyval \<Rightarrow> string \<Rightarrow> error + pyval" where
  "py_subscript (PDict d) k =
     (case dict_lookup d (PStr k) of Some v \<Rightarrow> Inr v | None \<Rightarrow> Inl KeyError)"
| "py_subscript v k = Inl TypeError"

text \<open>\<^verbatim>\<open>x[0]\<close>.\<close>

fun py_first :: "pyval \<Rightarrow> error + pyval" where
  "py_first (PList []) = Inl IndexError"
| "py_first (PList (x # xs)) = Inr x"
| "py_first (PStr []) = Inl IndexError"
| "py_first (PStr (c # cs)) = Inr (PStr [c])"
| "py_first (PDict d) =
     (case dict_lookup d (PInt 0) of Some v \<Rightarrow> Inr v | None \<Rightarrow> Inl KeyError)"
| "py_first v = Inl TypeError"

text \<open>\<^verbatim>\<open>xs[i]\<close> on a list, with a non-negative index.\<close>

definition list_index :: "pyval list \<Rightarrow> nat \<Rightarrow> error + pyval" where
  "list_index xs i = (if i < length xs then Inr (xs ! i) else Inl IndexError)"

text \<open>\<^verbatim>\<open>x.copy()\<close>: dictionaries and lists have it.\<close>

fun py_copy :: "pyval \<Rightarrow> error + pyval" where
  "py_copy (PDict d) = Inr (PDict d)"
| "py_copy (PList xs) = Inr (PList xs)"
| "py_copy v = Inl AttributeError"

text \<open>\<^verbatim>\<open>x[key] = v\<close> with a string key.\<close>

fun py_setitem :: "pyval \<Rightarrow> string \<Rightarrow> pyval \<Rightarrow> error + pyval" where
  "py_setitem (PDict d) k v = Inr (PDict (dict_store d (PStr k) v))"
| "py_setitem x k v = Inl TypeError"

text \<open>What \<^verbatim>\<open>for x in v\<close> walks: a list's elements, a dictionary's keys, a string's characters.\<close>

fun py_iter :: "pyval \<Rightarrow> error + pyval list" where
  "py_iter (PList xs) = Inr xs"
| "py_iter (PDict d) = Inr (map fst d)"
| "py_iter (PStr s) = Inr (map (\<lambda>c. PStr [c]) s)"
| "py_iter v = Inl TypeError"

text \<open>
  \<^verbatim>\<open>d.update(arg)\<close>. A dictionary argument is merged item by item. Any other argument is
  read as a sequence of key/value pairs: each element must itself be iterable
  (TypeError otherwise) with exactly two items (ValueError otherwise), the first of them
  hashable.
\<close>

fun update_pairs :: "pydict \<Rightarrow> pyval list \<Rightarrow> error + pydict" where
  "update_pairs d [] = Inr d"
| "update_pairs d (e # es) =
     (case py_iter e of
        Inl err \<Rightarrow> Inl TypeError
      | Inr [k, v] \<Rightarrow> if hashable k then update_pairs (dict_store d k v) es else Inl TypeError
      | Inr other \<Rightarrow> Inl ValueError)"

fun py_update :: "pyval \<Rightarrow> pyval \<Rightarrow> error + pyval" where
  "py_update (PDict d) (PDict e) = Inr (PDict (foldl (\<lambda>acc (k, v). dict_store acc k v) d e))"
| "py_update (PDict d) arg =
     (case py_iter arg of
        Inl err \<Rightarrow> Inl TypeError
      | Inr es \<Rightarrow> (case update_pairs d es of Inl err \<Rightarrow> Inl err | Inr d' \<Rightarrow> Inr (PDict d')))"
| "py_update x arg = Inl AttributeError"

text \<open>Decimal digits of a number, for the f-string.\<close>

fun str_of_nat :: "nat \<Rightarrow> string" where
  "str_of_nat n =
     (if n < 10 then [''0123456789'' ! n]
      else str_of_nat (n div 10) @ [''0123456789'' ! (n mod 10)])"

declare str_of_nat.simps [simp del]

text \<open>
  \<^verbatim>\<open>str(v)\<close> as the f-string formats a field. The field has been hashed by the
  deduplicator before it is formatted, so it is a scalar; the \<^verbatim>\<open>repr\<close> of lists and
  dictionaries is never needed and is left empty.
\<close>

fun py_str :: "pyval \<Rightarrow> string" where
  "py_str PNone = ''None''"
| "py_str (PBool b) = (if b then ''True'' else ''False'')"
| "py_str (PInt i) = (if i < 0 then CHR ''-'' # str_of_nat (nat (- i)) else str_of_nat (nat i))"
| "py_str (PStr s) = s"
| "py_str v = []"

section \<open>The merge\<close>

text \<open>
  \<^verbatim>\<open>dedupe_sources\<close> (lines 210-219): the loop keeps the set of seen keys and the
  list of kept sources.
\<close>

fun dedupe_loop :: "(pyval \<times> pyval) set \<Rightarrow> pyval list \<Rightarrow> pyval list \<Rightarrow> error + pyval list" where
  "dedupe_loop seen filtered [] = Inr filtered"
| "dedupe_loop seen filtered (source # rest) =
     (case py_get source ''field'' PNone of
        Inl e \<Rightarrow> Inl e
      | Inr f \<Rightarrow>
          (case py_get source ''chunk_id'' PNone of
             Inl e \<Rightarrow> Inl e
           | Inr c \<Rightarrow>
               if \<not> (hashable f \<and> hashable c) then Inl TypeError
               else if (hash_norm f, hash_norm c) \<in> seen then dedupe_loop seen filtered rest
               else dedupe_loop (insert (hash_norm f, hash_norm c) seen) (filtered @ [source]) rest))"

definition dedupe_sources :: "pyval \<Rightarrow> error + pyval list" where
  "dedupe_sources sources =
     (case py_iter (if truthy sources then sources else PList []) of
        Inl e \<Rightarrow> Inl e
      | Inr xs \<Rightarrow> dedupe_loop {} [] xs)"

text \<open>The lookup key \<^verbatim>\<open>f"unit{unit_number}_{field}"\<close> and \<^verbatim>\<open>s3_cutout_paths.get(field_key, [])\<close>.\<close>

definition field_key :: "nat \<Rightarrow> pyval \<Rightarrow> string" where
  "field_key unit_number field = ''unit'' @ str_of_nat unit_number @ ''_'' @ py_str field"

definition s3_uris :: "pydict \<Rightarrow> nat \<Rightarrow> pyval \<Rightarrow> pyval" where
  "s3_uris s3_cutout_paths unit_number field =
     (case dict_lookup s3_cutout_paths (PStr (field_key unit_number field)) of
        Some v \<Rightarrow> v
      | None \<Rightarrow> PList [])"

text \<open>One contract source (lines 246-266): the record appended to the merged sources.\<close>

definition contract_source :: "nat \<Rightarrow> pydict \<Rightarrow> pyval \<Rightarrow> error + pyval" where
  "contract_source unit_number s3_cutout_paths source =
     (case py_get source ''field'' PNone of
        Inl e \<Rightarrow> Inl e
      | Inr field \<Rightarrow>
          (case py_get source ''chunk_id'' PNone of
             Inl e \<Rightarrow> Inl e
           | Inr chunk_id \<Rightarrow>
               (case (if truthy (s3_uris s3_cutout_paths unit_number field)
                      then py_first (s3_uris s3_cutout_paths unit_number field)
                      else Inr (if \<not> py_eq chunk_id (PStr ''calculated'') then chunk_id else PNone)) of
                  Inl e \<Rightarrow> Inl e
                | Inr chunk_file_key \<Rightarrow>
                    Inr (PDict [(PStr ''field'', field),
                                (PStr ''chunk_id'', chunk_id),
                                (PStr ''chunk_file_key'', chunk_file_key)]))))"

fun contract_loop :: "nat \<Rightarrow> pydict \<Rightarrow> pyval list \<Rightarrow> pyval list \<Rightarrow> error + pyval list" where
  "contract_loop unit_number s3 sources [] = Inr sources"
| "contract_loop unit_number s3 sources (source # rest) =
     (case contract_source unit_number s3 source of
        Inl e \<Rightarrow> Inl e
      | Inr entry \<Rightarrow> contract_loop unit_number s3 (sources @ [entry]) rest)"

text \<open>
  The test of line 277,
  \<^verbatim>\<open>any(s['field'] == field and s.get('chunk_id') == chunk_id for s in merged_unit['sources'])\<close>,
  evaluated left to right and lazily.
\<close>

fun already_in_sources :: "pyval list \<Rightarrow> pyval \<Rightarrow> pyval \<Rightarrow> error + bool" where
  "already_in_sources [] field chunk_id = Inr False"
| "already_in_sources (s # ss) field chunk_id =
     (case py_subscript s ''field'' of
        Inl e \<Rightarrow> Inl e
      | Inr sf \<Rightarrow>
          if py_eq sf field then
            (case py_get s ''chunk_id'' PNone of
               Inl e \<Rightarrow> Inl e
             | Inr sc \<Rightarrow> if py_eq sc chunk_id then Inr True
                         else already_in_sources ss field chunk_id)
          else already_in_sources ss field chunk_id)"

text \<open>One installment source that is not skipped (lines 280-291).\<close>

definition installment_source :: "nat \<Rightarrow> pydict \<Rightarrow> pyval \<Rightarrow> pyval \<Rightarrow> error + pyval" where
  "installment_source unit_number s3_cutout_paths field chunk_id =
     (case (if truthy (s3_uris s3_cutout_paths unit_number field)
            then py_first (s3_uris s3_cutout_paths unit_number field)
            else Inr chunk_id) of
        Inl e \<Rightarrow> Inl e
      | Inr chunk_file_key \<Rightarrow>
          Inr (PDict [(PStr ''field'', field), (PStr ''chunk_file_key'', chunk_file_key)]))"

fun installment_loop :: "nat \<Rightarrow> pydict \<Rightarrow> pyval list \<Rightarrow> pyval list \<Rightarrow> error + pyval list" where
  "installment_loop unit_number s3 sources [] = Inr sources"
| "installment_loop unit_number s3 sources (source # rest) =
     (case py_get source ''field'' PNone of
        Inl e \<Rightarrow> Inl e
      | Inr field \<Rightarrow>
          (case py_get source ''chunk_id'' PNone of
             Inl e \<Rightarrow> Inl e
           | Inr chunk_id \<Rightarrow>
               (case already_in_sources sources field chunk_id of
                  Inl e \<Rightarrow> Inl e
                | Inr True \<Rightarrow> installment_loop unit_number s3 sources rest
                | Inr False \<Rightarrow>
                    (case installment_source unit_number s3 field chunk_id of
                       Inl e \<Rightarrow> Inl e
                     | Inr entry \<Rightarrow> installment_loop unit_number s3 (sources @ [entry]) rest))))"

text \<open>Lines 233-242: the installment plans and the confidence of the counterpart unit.\<close>

definition installment_data :: "nat \<Rightarrow> pyval list \<Rightarrow> pyval \<Rightarrow> pyval \<Rightarrow> error + pyval \<times> pyval" where
  "installment_data unit_idx installment_result unit_fields confidence =
     (if unit_idx < length installment_result then
        (case list_index installment_result unit_idx of
           Inl e \<Rightarrow> Inl e
         | Inr installment_unit \<Rightarrow>
        (case py_get installment_unit ''unit'' (PDict []) of
           Inl e \<Rightarrow> Inl e
         | Inr installment_fields \<Rightarrow>
        (case py_get installment_fields ''installmentPlans'' (PList []) of
           Inl e \<Rightarrow> Inl e
         | Inr installment_plans \<Rightarrow>
        (case (if truthy installment_plans
               then py_setitem unit_fields ''installmentPlans'' installment_plans
               else Inr unit_fields) of
           Inl e \<Rightarrow> Inl e
         | Inr unit_fields' \<Rightarrow>
        (case py_get installment_unit ''confidence'' (PDict []) of
           Inl e \<Rightarrow> Inl e
         | Inr installment_confidence \<Rightarrow>
        (case py_update confidence installment_confidence of
           Inl e \<Rightarrow> Inl e
         | Inr confidence' \<Rightarrow> Inr (unit_fields', confidence')))))))
      else Inr (unit_fields, confidence))"

text \<open>Lines 245-266: the contract sources, deduplicated, each mapped to its record.\<close>

definition contract_sources :: "nat \<Rightarrow> pydict \<Rightarrow> pyval \<Rightarrow> error + pyval list" where
  "contract_sources unit_number s3 contract_unit =
     (case py_get contract_unit ''sources'' (PList []) of
        Inl e \<Rightarrow> Inl e
      | Inr sources \<Rightarrow>
          (case dedupe_sources sources of
             Inl e \<Rightarrow> Inl e
           | Inr deduped \<Rightarrow> contract_loop unit_number s3 [] deduped))"

text \<open>Lines 269-291: the installment sources of the counterpart unit, appended.\<close>

definition installment_sources :: "nat \<Rightarrow> pyval list \<Rightarrow> pydict \<Rightarrow> pyval list \<Rightarrow> error + pyval list" where
  "installment_sources unit_idx installment_result s3 sources =
     (if unit_idx < length installment_result then
        (case list_index installment_result unit_idx of
           Inl e \<Rightarrow> Inl e
         | Inr installment_unit \<Rightarrow>
        (case py_get installment_unit ''sources'' (PList []) of
           Inl e \<Rightarrow> Inl e
         | Inr srcs \<Rightarrow>
        (case dedupe_sources srcs of
           Inl e \<Rightarrow> Inl e
         | Inr deduped \<Rightarrow> installment_loop (unit_idx + 1) s3 sources deduped)))
      else Inr sources)"

text \<open>The body of the loop over the contract units (lines 222-293).\<close>

definition merge_unit :: "nat \<Rightarrow> pyval \<Rightarrow> pyval list \<Rightarrow> pydict \<Rightarrow> error + pyval" where
  "merge_unit unit_idx contract_unit installment_result s3 =
     (case py_get contract_unit ''unit'' (PDict []) of
        Inl e \<Rightarrow> Inl e
      | Inr u \<Rightarrow>
     (case py_copy u of
        Inl e \<Rightarrow> Inl e
      | Inr unit_fields \<Rightarrow>
     (case py_get contract_unit ''confidence'' (PDict []) of
        Inl e \<Rightarrow> Inl e
      | Inr c \<Rightarrow>
     (case py_copy c of
        Inl e \<Rightarrow> Inl e
      | Inr confidence \<Rightarrow>
     (case installment_data unit_idx installment_result unit_fields confidence of
        Inl e \<Rightarrow> Inl e
      | Inr (unit_fields', confidence') \<Rightarrow>
     (case contract_sources (unit_idx + 1) s3 contract_unit of
        Inl e \<Rightarrow> Inl e
      | Inr sources \<Rightarrow>
     (case installment_sources unit_idx installment_result s3 sources of
        Inl e \<Rightarrow> Inl e
      | Inr sources' \<Rightarrow>
          Inr (PDict [(PStr ''unit'', unit_fields'),
                      (PStr ''sources'', PList sources'),
                      (PStr ''confidence'', confidence')]))))))))"

fun merge_loop :: "nat \<Rightarrow> pyval list \<Rightarrow> pyval list \<Rightarrow> pydict \<Rightarrow> pyval list \<Rightarrow> error + pyval list" where
  "merge_loop unit_idx [] installment_result s3 merged_units = Inr merged_units"
| "merge_loop unit_idx (contract_unit # rest) installment_result s3 merged_units =
     (case merge_unit unit_idx contract_unit installment_result s3 of
        Inl e \<Rightarrow> Inl e
      | Inr merged_unit \<Rightarrow>
          merge_loop (Suc unit_idx) rest installment_result s3 (merged_units @ [merged_unit]))"

definition merge_results_with_cutouts :: "pyval list \<Rightarrow> pyval list \<Rightarrow> pydict \<Rightarrow> error + pyval list" where
  "merge_results_with_cutouts contract_result installment_result s3_cutout_paths =
     merge_loop 0 contract_result installment_result s3_cutout_paths []"

section \<open>Notions for stating the properties\<close>

text \<open>The field and the chunk identifier of a citation, as \<^verbatim>\<open>source.get(...)\<close> reads them.\<close>

definition source_field :: "pyval \<Rightarrow> pyval" where
  "source_field s = (case py_get s ''field'' PNone of Inr f \<Rightarrow> f | Inl e \<Rightarrow> PNone)"

definition source_chunk :: "pyval \<Rightarrow> pyval" where
  "source_chunk s = (case py_get s ''chunk_id'' PNone of Inr c \<Rightarrow> c | Inl e \<Rightarrow> PNone)"

text \<open>The key \<^verbatim>\<open>(field, chunk_id)\<close> as the set of seen keys holds it: equal keys, one element.\<close>

definition citation_key :: "pyval \<Rightarrow> pyval \<times> pyval" where
  "citation_key s = (hash_norm (source_field s), hash_norm (source_chunk s))"

text \<open>A citation the deduplicator accepts: a dictionary whose field and chunk identifier can be hashed.\<close>

fun is_dict :: "pyval \<Rightarrow> bool" where
  "is_dict (PDict d) = True"
| "is_dict v = False"

definition is_citation :: "pyval \<Rightarrow> bool" where
  "is_citation s = (is_dict s \<and> hashable (source_field s) \<and> hashable (source_chunk s))"

text \<open>
  The deduplicator as the specification words it: a citation is emitted the first time
  its key is seen, that is when no earlier citation of the input has its key; the order
  is the order of the input.
\<close>

definition first_occurrences :: "pyval list \<Rightarrow> pyval list" where
  "first_occurrences xs =
     [xs ! i. i \<leftarrow> [0..<length xs], citation_key (xs ! i) \<notin> citation_key ` set (take i xs)]"

text \<open>The same by recursion, given the keys seen so far.\<close>

fun keep_unseen :: "(pyval \<times> pyval) set \<Rightarrow> pyval list \<Rightarrow> pyval list" where
  "keep_unseen seen [] = []"
| "keep_unseen seen (x # xs) =
     (if citation_key x \<in> seen then keep_unseen seen xs
      else x # keep_unseen (insert (citation_key x) seen) xs)"

text \<open>A dictionary holds a key once.\<close>

definition distinct_keys :: "pydict \<Rightarrow> bool" where
  "distinct_keys d = distinct (map (hash_norm \<circ> fst) d)"

text \<open>No artifact for a field: the key is absent from the map, or maps to an empty list.\<close>

definition no_artifact :: "pydict \<Rightarrow> nat \<Rightarrow> pyval \<Rightarrow> bool" where
  "no_artifact s3 unit_number field =
     (dict_lookup s3 (PStr (field_key unit_number field)) = None \<or>
      dict_lookup s3 (PStr (field_key unit_number field)) = Some (PList []))"







section \<open>Auxiliary facts\<close>

lemma py_eq_refl [simp]: "py_eq a a"
  by (simp add: py_eq_def)

lemma py_eq_sym: "py_eq a b = py_eq b a"
  by (auto simp: py_eq_def)

lemma py_eq_trans: "py_eq a b \<Longrightarrow> py_eq b c \<Longrightarrow> py_eq a c"
  by (simp add: py_eq_def)

lemma py_eq_PStr [simp]: "py_eq (PStr a) k = (k = PStr a)" "py_eq k (PStr a) = (k = PStr a)"
  by (cases k; auto simp: py_eq_def)+

lemma py_eq_PNone [simp]: "py_eq PNone k = (k = PNone)" "py_eq k PNone = (k = PNone)"
  by (cases k; auto simp: py_eq_def)+

lemma dict_lookup_store:
  "dict_lookup (dict_store d k v) k' = (if py_eq k k' then Some v else dict_lookup d k')"
  by (induction d) (auto simp: py_eq_def)

lemma dict_lookup_None_iff:
  "dict_lookup d k = None \<longleftrightarrow> hash_norm k \<notin> set (map (hash_norm \<circ> fst) d)"
  by (induction d) (auto simp: py_eq_def split: if_splits)

lemma dict_lookup_update:
  "distinct_keys e \<Longrightarrow>
   dict_lookup (foldl (\<lambda>acc (k, v). dict_store acc k v) d e) k =
     (case dict_lookup e k of Some v \<Rightarrow> Some v | None \<Rightarrow> dict_lookup d k)"
proof (induction e arbitrary: d)
  case Nil
  then show ?case by simp
next
  case (Cons p e)
  obtain k0 v0 where p: "p = (k0, v0)" by (cases p)
  from Cons.prems have dk: "distinct_keys e" and fresh: "hash_norm k0 \<notin> set (map (hash_norm \<circ> fst) e)"
    by (auto simp: distinct_keys_def p)
  show ?case
  proof (cases "py_eq k0 k")
    case True
    then have "hash_norm k \<notin> set (map (hash_norm \<circ> fst) e)"
      using fresh by (simp add: py_eq_def)
    then have "dict_lookup e k = None" by (simp add: dict_lookup_None_iff)
    then show ?thesis using True Cons.IH [OF dk] by (simp add: p dict_lookup_store)
  next
    case False
    then show ?thesis using Cons.IH [OF dk] by (simp add: p dict_lookup_store split: option.splits)
  qed
qed

lemma merge_loop_Inr:
  "merge_loop i cr ir s3 acc = Inr out \<Longrightarrow>
   \<exists>mus. out = acc @ mus \<and> length mus = length cr \<and>
         (\<forall>j<length cr. merge_unit (i + j) (cr ! j) ir s3 = Inr (mus ! j))"
proof (induction cr arbitrary: i acc)
  case Nil
  then show ?case by simp
next
  case (Cons cu cr)
  from Cons.prems obtain mu where mu: "merge_unit i cu ir s3 = Inr mu"
    and rest: "merge_loop (Suc i) cr ir s3 (acc @ [mu]) = Inr out"
    by (auto split: sum.splits)
  from Cons.IH [OF rest] obtain mus where mus: "out = (acc @ [mu]) @ mus" "length mus = length cr"
    "\<forall>j<length cr. merge_unit (Suc i + j) (cr ! j) ir s3 = Inr (mus ! j)" by blast
  have "\<forall>j<length (cu # cr). merge_unit (i + j) ((cu # cr) ! j) ir s3 = Inr ((mu # mus) ! j)"
    using mu mus(3) by (auto simp: nth_Cons split: nat.splits)
  then show ?case using mus(1,2) by (intro exI [of _ "mu # mus"]) simp
qed


lemma merge_results_units:
  assumes "merge_results_with_cutouts cr ir s3 = Inr out"
  shows "length out = length cr" and "i < length cr \<Longrightarrow> merge_unit i (cr ! i) ir s3 = Inr (out ! i)"
  using merge_loop_Inr [of 0 cr ir s3 "[]" out] assms
  by (auto simp: merge_results_with_cutouts_def)

lemma contract_loop_Inr:
  "contract_loop n s3 acc xs = Inr out \<Longrightarrow>
   \<exists>ys. out = acc @ ys \<and> list_all2 (\<lambda>x y. contract_source n s3 x = Inr y) xs ys"
proof (induction xs arbitrary: acc)
  case Nil
  then show ?case by simp
next
  case (Cons x xs)
  from Cons.prems obtain y where y: "contract_source n s3 x = Inr y"
    and rest: "contract_loop n s3 (acc @ [y]) xs = Inr out"
    by (auto split: sum.splits)
  from Cons.IH [OF rest] obtain ys where "out = (acc @ [y]) @ ys"
    "list_all2 (\<lambda>x y. contract_source n s3 x = Inr y) xs ys" by blast
  then show ?case using y by (intro exI [of _ "y # ys"]) simp
qed

lemma py_get_Inr_is_dict: "py_get s k d = Inr v \<Longrightarrow> is_dict s"
  by (cases s) auto

lemma py_get_field: "py_get s ''field'' PNone = Inr f \<Longrightarrow> source_field s = f"
  by (simp add: source_field_def)

lemma py_get_chunk: "py_get s ''chunk_id'' PNone = Inr c \<Longrightarrow> source_chunk s = c"
  by (simp add: source_chunk_def)

lemma is_dict_get_field: "is_dict s \<Longrightarrow> py_get s ''field'' PNone = Inr (source_field s)"
  by (cases s) (auto simp: source_field_def)

lemma is_dict_get_chunk: "is_dict s \<Longrightarrow> py_get s ''chunk_id'' PNone = Inr (source_chunk s)"
  by (cases s) (auto simp: source_chunk_def)

lemma dedupe_loop_citations:
  "list_all is_citation xs \<Longrightarrow>
   dedupe_loop seen filtered xs = Inr (filtered @ keep_unseen seen xs)"
proof (induction xs arbitrary: seen filtered)
  case Nil
  then show ?case by simp
next
  case (Cons x xs)
  then have cx: "is_citation x" and xs: "list_all is_citation xs"
    by simp_all
  from cx have x: "is_dict x" "hashable (source_field x)" "hashable (source_chunk x)"
    by (simp_all add: is_citation_def)
  show ?case
    using x Cons.IH [OF xs]
    by (simp add: is_dict_get_field is_dict_get_chunk citation_key_def)
qed

lemma dedupe_loop_Inr:
  "dedupe_loop seen filtered xs = Inr out \<Longrightarrow>
   list_all is_citation xs \<and> out = filtered @ keep_unseen seen xs"
proof (induction xs arbitrary: seen filtered)
  case Nil
  then show ?case by simp
next
  case (Cons x xs)
  from Cons.prems obtain f c where f: "py_get x ''field'' PNone = Inr f"
    and c: "py_get x ''chunk_id'' PNone = Inr c" and h: "hashable f" "hashable c"
    by (auto split: sum.splits if_splits)
  have x: "is_citation x"
    using f c h by (simp add: is_citation_def py_get_Inr_is_dict [OF f] py_get_field py_get_chunk)
  have key: "citation_key x = (hash_norm f, hash_norm c)"
    using f c by (simp add: citation_key_def py_get_field py_get_chunk)
  show ?case
  proof (cases "citation_key x \<in> seen")
    case True
    with Cons.prems f c h key have "dedupe_loop seen filtered xs = Inr out" by simp
    from Cons.IH [OF this] show ?thesis using x True by simp
  next
    case False
    with Cons.prems f c h key
    have "dedupe_loop (insert (citation_key x) seen) (filtered @ [x]) xs = Inr out" by simp
    from Cons.IH [OF this] show ?thesis using x False by simp
  qed
qed

lemma keep_unseen_indices:
  "keep_unseen seen xs =
     [xs ! i. i \<leftarrow> [0..<length xs], citation_key (xs ! i) \<notin> seen \<union> citation_key ` set (take i xs)]"
proof -
  define fresh :: "(pyval \<times> pyval) set \<Rightarrow> pyval list \<Rightarrow> nat \<Rightarrow> bool"
    where "fresh = (\<lambda>s ys i. citation_key (ys ! i) \<notin> s \<union> citation_key ` set (take i ys))"
  have fresh_0: "fresh s (y # ys) 0 = (citation_key y \<notin> s)" for s y ys
    by (simp add: fresh_def)
  have fresh_Suc: "fresh s (y # ys) (Suc i) =
      fresh (if citation_key y \<in> s then s else insert (citation_key y) s) ys i" for s y ys i
    by (auto simp: fresh_def)
  have "keep_unseen seen xs = concat (map (\<lambda>i. if fresh seen xs i then [xs ! i] else []) [0..<length xs])"
  proof (induction xs arbitrary: seen)
    case Nil
    then show ?case by simp
  next
    case (Cons x xs)
    have upt: "[0..<length (x # xs)] = 0 # map Suc [0..<length xs]"
      using upt_conv_Cons [of 0 "Suc (length xs)"] by (simp add: map_Suc_upt del: upt_Suc)
    show ?case
      unfolding upt
      by (simp add: comp_def fresh_0 fresh_Suc Cons.IH del: upt_Suc cong: if_cong)
  qed
  then show ?thesis by (simp add: fresh_def)
qed

lemma keep_unseen_first_occurrences: "keep_unseen {} xs = first_occurrences xs"
  by (simp add: keep_unseen_indices first_occurrences_def)

lemma installment_loop_Inr:
  "installment_loop n s3 acc xs = Inr out \<Longrightarrow>
   \<exists>kept ys. out = acc @ ys \<and> subseq kept xs \<and>
     list_all2 (\<lambda>x y. is_dict x \<and>
        installment_source n s3 (source_field x) (source_chunk x) = Inr y) kept ys"
proof (induction xs arbitrary: acc)
  case Nil
  then show ?case by simp
next
  case (Cons x xs)
  let ?R = "\<lambda>x y. is_dict x \<and> installment_source n s3 (source_field x) (source_chunk x) = Inr y"
  from Cons.prems obtain f c dup where f: "py_get x ''field'' PNone = Inr f"
    and c: "py_get x ''chunk_id'' PNone = Inr c"
    and dup: "already_in_sources acc f c = Inr dup"
    by (auto split: sum.splits)
  have fx: "source_field x = f" "source_chunk x = c" "is_dict x"
    using f c by (simp_all add: py_get_field py_get_chunk py_get_Inr_is_dict [OF f])
  show ?case
  proof (cases dup)
    case True
    with Cons.prems f c dup have "installment_loop n s3 acc xs = Inr out" by simp
    from Cons.IH [OF this] obtain kept ys where "out = acc @ ys" "subseq kept xs" "list_all2 ?R kept ys"
      by blast
    then have "out = acc @ ys \<and> subseq kept (x # xs) \<and> list_all2 ?R kept ys"
      by (simp add: list_emb_Cons)
    then show ?thesis by blast
  next
    case False
    with Cons.prems f c dup obtain y where y: "installment_source n s3 f c = Inr y"
      and rest: "installment_loop n s3 (acc @ [y]) xs = Inr out"
      by (auto split: sum.splits)
    from Cons.IH [OF rest] obtain kept ys where "out = (acc @ [y]) @ ys" "subseq kept xs"
      "list_all2 ?R kept ys" by blast
    then have "out = acc @ (y # ys) \<and> subseq (x # kept) (x # xs) \<and> list_all2 ?R (x # kept) (y # ys)"
      using y fx by simp
    then show ?thesis by blast
  qed
qed

lemma merge_unit_Inr:
  assumes "merge_unit i cu ir s3 = Inr mu"
  shows "\<exists>u c u' c' srcs srcs'.
      py_get cu ''unit'' (PDict []) = Inr u \<and> py_get cu ''confidence'' (PDict []) = Inr c \<and>
      installment_data i ir u c = Inr (u', c') \<and>
      contract_sources (Suc i) s3 cu = Inr srcs \<and>
      installment_sources i ir s3 srcs = Inr srcs' \<and>
      mu = PDict [(PStr ''unit'', u'), (PStr ''sources'', PList srcs'), (PStr ''confidence'', c')]"
proof -
  from assms obtain u uf where u: "py_get cu ''unit'' (PDict []) = Inr u" "py_copy u = Inr uf"
    unfolding merge_unit_def by (auto split: sum.splits)
  have uf: "uf = u" using u(2) by (cases u) auto
  from assms u obtain c cf where c: "py_get cu ''confidence'' (PDict []) = Inr c" "py_copy c = Inr cf"
    unfolding merge_unit_def by (auto split: sum.splits)
  have cf: "cf = c" using c(2) by (cases c) auto
  from assms u c obtain u' c' where d: "installment_data i ir u c = Inr (u', c')"
    unfolding merge_unit_def uf cf by (auto split: sum.splits)
  from assms u c d obtain srcs where s: "contract_sources (Suc i) s3 cu = Inr srcs"
    unfolding merge_unit_def uf cf by (auto split: sum.splits)
  from assms u c d s obtain srcs' where s': "installment_sources i ir s3 srcs = Inr srcs'"
    unfolding merge_unit_def uf cf by (auto split: sum.splits)
  from assms u c d s s'
  have "mu = PDict [(PStr ''unit'', u'), (PStr ''sources'', PList srcs'), (PStr ''confidence'', c')]"
    unfolding merge_unit_def uf cf by simp
  with u c d s s' show ?thesis by blast
qed

lemma contract_sources_Inr:
  assumes "contract_sources n s3 cu = Inr srcs"
  shows "\<exists>sa da. py_get cu ''sources'' (PList []) = Inr sa \<and> dedupe_sources sa = Inr da \<and>
      list_all2 (\<lambda>x y. contract_source n s3 x = Inr y) da srcs"
proof -
  from assms obtain sa da where sa: "py_get cu ''sources'' (PList []) = Inr sa"
    and da: "dedupe_sources sa = Inr da" and l: "contract_loop n s3 [] da = Inr srcs"
    unfolding contract_sources_def by (auto split: sum.splits)
  from contract_loop_Inr [OF l] sa da show ?thesis by auto
qed

lemma installment_sources_Inr:
  assumes "installment_sources i ir s3 srcs = Inr srcs'" and "i < length ir"
  shows "\<exists>sb db kept ys. py_get (ir ! i) ''sources'' (PList []) = Inr sb \<and>
      dedupe_sources sb = Inr db \<and> subseq kept db \<and> srcs' = srcs @ ys \<and>
      list_all2 (\<lambda>x y. is_dict x \<and>
        installment_source (Suc i) s3 (source_field x) (source_chunk x) = Inr y) kept ys"
proof -
  from assms obtain sb db where sb: "py_get (ir ! i) ''sources'' (PList []) = Inr sb"
    and db: "dedupe_sources sb = Inr db" and l: "installment_loop (Suc i) s3 srcs db = Inr srcs'"
    unfolding installment_sources_def list_index_def by (auto split: sum.splits)
  from installment_loop_Inr [OF l] sb db show ?thesis by blast
qed

lemma installment_sources_absent:
  "\<not> i < length ir \<Longrightarrow> installment_sources i ir s3 srcs = Inr srcs"
  by (simp add: installment_sources_def)

lemmas merge_eval = merge_results_with_cutouts_def merge_unit_def installment_data_def
  contract_sources_def installment_sources_def dedupe_sources_def contract_source_def
  installment_source_def list_index_def s3_uris_def field_key_def str_of_nat.simps py_eq_def

section \<open>The merged list has one unit per contract unit\<close>

text \<open>
  C2. Whatever the installment list is (empty, shorter, as long, or longer than the
  contract list), the list that \<^verbatim>\<open>merge_results_with_cutouts\<close> returns is as long as
  the contract list.
\<close>

theorem merged_length:
  "merge_results_with_cutouts contract_result installment_result s3 = Inr merged \<Longrightarrow>
   length merged = length contract_result"
  by (rule merge_results_units(1))

theorem merged_length_witness:
  "merge_results_with_cutouts [PDict []] [PDict [], PDict []] [] =
     Inr [PDict [(PStr ''unit'', PDict []), (PStr ''sources'', PList []), (PStr ''confidence'', PDict [])]]
   \<and> length [PDict [(PStr ''unit'', PDict []), (PStr ''sources'', PList []), (PStr ''confidence'', PDict [])]]
       = length [PDict []]"
proof -
  have run: "merge_results_with_cutouts [PDict []] [PDict [], PDict []] [] =
     Inr [PDict [(PStr ''unit'', PDict []), (PStr ''sources'', PList []), (PStr ''confidence'', PDict [])]]"
    by (simp add: merge_eval)
  from merged_length [OF run] run show ?thesis by simp
qed

section \<open>Which units are merged\<close>

lemma installment_data_take:
  "i < n \<Longrightarrow> installment_data i (take n ir) u c = installment_data i ir u c"
  by (simp add: installment_data_def list_index_def)

lemma installment_sources_take:
  "i < n \<Longrightarrow> installment_sources i (take n ir) s3 srcs = installment_sources i ir s3 srcs"
  by (simp add: installment_sources_def list_index_def)

lemma merge_unit_take:
  "i < n \<Longrightarrow> merge_unit i cu (take n ir) s3 = merge_unit i cu ir s3"
  by (simp add: merge_unit_def installment_data_take installment_sources_take cong: sum.case_cong)

lemma merge_loop_take:
  "i + length cr \<le> n \<Longrightarrow> merge_loop i cr (take n ir) s3 acc = merge_loop i cr ir s3 acc"
proof (induction cr arbitrary: i acc)
  case Nil
  then show ?case by simp
next
  case (Cons cu cr)
  then have "i < n" and "Suc i + length cr \<le> n" by simp_all
  then show ?case using Cons.IH [of "Suc i"] by (simp add: merge_unit_take split: sum.splits)
qed

lemma installment_data_absent:
  "length ir \<le> i \<Longrightarrow> installment_data i ir u c = Inr (u, c)"
  by (simp add: installment_data_def)

lemma merge_unit_absent:
  "length ir \<le> i \<Longrightarrow> merge_unit i cu ir s3 = merge_unit i cu [] s3"
  by (simp add: merge_unit_def installment_data_absent installment_sources_absent cong: sum.case_cong)

text \<open>
  C3, as the code has it. The merged result is an ordered sequence of unit records with
  one record per contract (Pass-A) unit, not \<open>max\<close> of the two lengths: the loop runs
  over the contract list. A contract unit with no installment counterpart is still
  emitted, merged as if the installment list were empty. Installment units at indices
  beyond the contract list's length do not appear in the output and have no influence on
  it: the result is that of the installment list cut to the contract list's length.
\<close>

theorem merged_units_follow_contract:
  "merge_results_with_cutouts contract_result installment_result s3 =
     merge_results_with_cutouts contract_result (take (length contract_result) installment_result) s3
   \<and> (\<forall>merged. merge_results_with_cutouts contract_result installment_result s3 = Inr merged \<longrightarrow>
        length merged = length contract_result \<and>
        (\<forall>i<length contract_result.
           merge_unit i (contract_result ! i) installment_result s3 = Inr (merged ! i) \<and>
           (length installment_result \<le> i \<longrightarrow>
              merge_unit i (contract_result ! i) [] s3 = Inr (merged ! i))))"
proof (intro conjI allI impI)
  show "merge_results_with_cutouts contract_result installment_result s3 =
     merge_results_with_cutouts contract_result (take (length contract_result) installment_result) s3"
    by (simp add: merge_results_with_cutouts_def merge_loop_take)
next
  fix merged
  assume run: "merge_results_with_cutouts contract_result installment_result s3 = Inr merged"
  show "length merged = length contract_result"
    by (rule merge_results_units(1) [OF run])
  fix i assume i: "i < length contract_result"
  show unit: "merge_unit i (contract_result ! i) installment_result s3 = Inr (merged ! i)"
    by (rule merge_results_units(2) [OF run i])
  assume "length installment_result \<le> i"
  then show "merge_unit i (contract_result ! i) [] s3 = Inr (merged ! i)"
    using unit by (simp add: merge_unit_absent [of installment_result i])
qed

theorem merged_length_max_counterexample:
  "merge_results_with_cutouts [PDict []]
      [PDict [], PDict [(PStr ''unit'', PDict [(PStr ''installmentPlans'', PList [PInt 1])])]] [] =
     Inr [PDict [(PStr ''unit'', PDict []), (PStr ''sources'', PList []), (PStr ''confidence'', PDict [])]]
   \<and> length [PDict [(PStr ''unit'', PDict []), (PStr ''sources'', PList []), (PStr ''confidence'', PDict [])]]
       \<noteq> max (length [PDict []])
             (length [PDict [], PDict [(PStr ''unit'', PDict [(PStr ''installmentPlans'', PList [PInt 1])])]])"
  by (simp add: merge_eval)

theorem merged_units_follow_contract_witness:
  "merge_results_with_cutouts [PDict [], PDict []] [PDict []] [] =
     Inr [PDict [(PStr ''unit'', PDict []), (PStr ''sources'', PList []), (PStr ''confidence'', PDict [])],
          PDict [(PStr ''unit'', PDict []), (PStr ''sources'', PList []), (PStr ''confidence'', PDict [])]]
   \<and> merge_unit 1 ([PDict [], PDict []] ! 1) [] [] =
       Inr ([PDict [(PStr ''unit'', PDict []), (PStr ''sources'', PList []), (PStr ''confidence'', PDict [])],
          PDict [(PStr ''unit'', PDict []), (PStr ''sources'', PList []), (PStr ''confidence'', PDict [])]] ! 1)"
proof -
  have run: "merge_results_with_cutouts [PDict [], PDict []] [PDict []] [] =
     Inr [PDict [(PStr ''unit'', PDict []), (PStr ''sources'', PList []), (PStr ''confidence'', PDict [])],
          PDict [(PStr ''unit'', PDict []), (PStr ''sources'', PList []), (PStr ''confidence'', PDict [])]]"
    by (simp add: merge_eval)
  from merged_units_follow_contract [of "[PDict [], PDict []]" "[PDict []]" "[]"] run
  show ?thesis by simp
qed

section \<open>The citation deduplicator\<close>

lemma keep_unseen_subseq: "subseq (keep_unseen seen xs) xs"
  by (induction xs arbitrary: seen) (simp_all add: list_emb_Cons)

lemma keep_unseen_keys:
  "citation_key ` set (keep_unseen seen xs) = citation_key ` set xs - seen"
  by (induction xs arbitrary: seen) auto

lemma keep_unseen_distinct: "distinct (map citation_key (keep_unseen seen xs))"
proof (induction xs arbitrary: seen)
  case Nil
  then show ?case by simp
next
  case (Cons x xs)
  have "citation_key x \<notin> citation_key ` set (keep_unseen (insert (citation_key x) seen) xs)"
    by (simp add: keep_unseen_keys)
  then show ?case using Cons.IH by simp
qed

lemma dedupe_sources_PList:
  "list_all is_citation xs \<Longrightarrow> dedupe_sources (PList xs) = Inr (first_occurrences xs)"
proof (cases "xs = []")
  case True
  then show ?thesis by (simp add: dedupe_sources_def first_occurrences_def)
next
  case False
  assume "list_all is_citation xs"
  from dedupe_loop_citations [OF this, of "{}" "[]"] False show ?thesis
    by (simp add: dedupe_sources_def keep_unseen_first_occurrences)
qed

lemma dedupe_sources_PNone: "dedupe_sources PNone = Inr []"
  by (simp add: dedupe_sources_def)

lemma keep_unseen_set: "set (keep_unseen seen xs) \<subseteq> set xs"
  by (induction xs arbitrary: seen) auto

text \<open>
  Whatever the deduplicator returns is a list of citations: every field that the merge
  goes on to format into a lookup key has been hashed, so it is a scalar.
\<close>

lemma dedupe_sources_citations:
  assumes "dedupe_sources v = Inr da"
  shows "list_all is_citation da"
proof -
  from assms obtain xs where "dedupe_loop {} [] xs = Inr da"
    unfolding dedupe_sources_def by (auto split: sum.splits)
  from dedupe_loop_Inr [OF this] have "list_all is_citation xs" and "da = keep_unseen {} xs"
    by simp_all
  with keep_unseen_set [of "{}" xs] show ?thesis
    by (auto simp: list_all_iff)
qed

text \<open>
  C4. For an ordered list of citations (or none: an empty list, or null) the
  deduplicator returns exactly the first occurrence of each \<open>(field, chunk_id)\<close> key, in
  the order of the input: a subsequence of the input with distinct keys that covers every
  key of the input. Two citations of one field with different chunk identifiers have
  different keys, so each is represented in the output by a citation of its own.
\<close>

theorem dedupe_sources_first_occurrences:
  assumes "list_all is_citation xs"
  shows "dedupe_sources (PList xs) = Inr (first_occurrences xs)
    \<and> dedupe_sources PNone = Inr []
    \<and> subseq (first_occurrences xs) xs
    \<and> distinct (map citation_key (first_occurrences xs))
    \<and> citation_key ` set (first_occurrences xs) = citation_key ` set xs
    \<and> (\<forall>a \<in> set xs. \<forall>b \<in> set xs.
          source_field a = source_field b \<and> \<not> py_eq (source_chunk a) (source_chunk b) \<longrightarrow>
          (\<exists>a' \<in> set (first_occurrences xs). \<exists>b' \<in> set (first_occurrences xs).
             a' \<noteq> b' \<and> citation_key a' = citation_key a \<and> citation_key b' = citation_key b))"
proof -
  have keys: "citation_key ` set (first_occurrences xs) = citation_key ` set xs"
    using keep_unseen_keys [of "{}" xs] by (simp add: keep_unseen_first_occurrences)
  have both: "\<exists>a' \<in> set (first_occurrences xs). \<exists>b' \<in> set (first_occurrences xs).
             a' \<noteq> b' \<and> citation_key a' = citation_key a \<and> citation_key b' = citation_key b"
    if a: "a \<in> set xs" and b: "b \<in> set xs"
      and diff: "\<not> py_eq (source_chunk a) (source_chunk b)" for a b
  proof -
    from a keys obtain a' where a': "a' \<in> set (first_occurrences xs)" "citation_key a' = citation_key a"
      by (metis imageE imageI)
    from b keys obtain b' where b': "b' \<in> set (first_occurrences xs)" "citation_key b' = citation_key b"
      by (metis imageE imageI)
    from diff have "citation_key a \<noteq> citation_key b"
      by (simp add: citation_key_def py_eq_def)
    with a' b' have "a' \<noteq> b'" by auto
    with a' b' show ?thesis by blast
  qed
  show ?thesis
    using assms keys both keep_unseen_subseq [of "{}" xs] keep_unseen_distinct [of "{}" xs]
    by (simp add: dedupe_sources_PList dedupe_sources_PNone keep_unseen_first_occurrences)
qed

theorem dedupe_sources_first_occurrences_witness:
  "list_all is_citation
     [PDict [(PStr ''field'', PStr ''a''), (PStr ''chunk_id'', PStr ''c1'')],
      PDict [(PStr ''field'', PStr ''a''), (PStr ''chunk_id'', PStr ''c2'')],
      PDict [(PStr ''field'', PStr ''a''), (PStr ''chunk_id'', PStr ''c1''), (PStr ''page'', PInt 2)],
      PDict [(PStr ''field'', PStr ''b'')]]
   \<and> dedupe_sources (PList
     [PDict [(PStr ''field'', PStr ''a''), (PStr ''chunk_id'', PStr ''c1'')],
      PDict [(PStr ''field'', PStr ''a''), (PStr ''chunk_id'', PStr ''c2'')],
      PDict [(PStr ''field'', PStr ''a''), (PStr ''chunk_id'', PStr ''c1''), (PStr ''page'', PInt 2)],
      PDict [(PStr ''field'', PStr ''b'')]])
     = Inr (first_occurrences
     [PDict [(PStr ''field'', PStr ''a''), (PStr ''chunk_id'', PStr ''c1'')],
      PDict [(PStr ''field'', PStr ''a''), (PStr ''chunk_id'', PStr ''c2'')],
      PDict [(PStr ''field'', PStr ''a''), (PStr ''chunk_id'', PStr ''c1''), (PStr ''page'', PInt 2)],
      PDict [(PStr ''field'', PStr ''b'')]])
   \<and> first_occurrences
     [PDict [(PStr ''field'', PStr ''a''), (PStr ''chunk_id'', PStr ''c1'')],
      PDict [(PStr ''field'', PStr ''a''), (PStr ''chunk_id'', PStr ''c2'')],
      PDict [(PStr ''field'', PStr ''a''), (PStr ''chunk_id'', PStr ''c1''), (PStr ''page'', PInt 2)],
      PDict [(PStr ''field'', PStr ''b'')]]
     = [PDict [(PStr ''field'', PStr ''a''), (PStr ''chunk_id'', PStr ''c1'')],
        PDict [(PStr ''field'', PStr ''a''), (PStr ''chunk_id'', PStr ''c2'')],
        PDict [(PStr ''field'', PStr ''b'')]]"
proof -
  let ?xs = "[PDict [(PStr ''field'', PStr ''a''), (PStr ''chunk_id'', PStr ''c1'')],
      PDict [(PStr ''field'', PStr ''a''), (PStr ''chunk_id'', PStr ''c2'')],
      PDict [(PStr ''field'', PStr ''a''), (PStr ''chunk_id'', PStr ''c1''), (PStr ''page'', PInt 2)],
      PDict [(PStr ''field'', PStr ''b'')]]"
  have h: "list_all is_citation ?xs"
    by (simp add: is_citation_def source_field_def source_chunk_def)
  have v: "first_occurrences ?xs =
      [PDict [(PStr ''field'', PStr ''a''), (PStr ''chunk_id'', PStr ''c1'')],
        PDict [(PStr ''field'', PStr ''a''), (PStr ''chunk_id'', PStr ''c2'')],
        PDict [(PStr ''field'', PStr ''b'')]]"
    by (simp add: keep_unseen_first_occurrences [symmetric] citation_key_def
        source_field_def source_chunk_def)
  from dedupe_sources_first_occurrences [OF h] h v show ?thesis by simp
qed

section \<open>Counting the merged citations\<close>

text \<open>
  C5 at a concrete input. The contract unit cites nothing; the installment unit cites
  the field \<open>price\<close> twice, once with chunk \<open>c1\<close> and once with no chunk identifier.
  The two keys differ, so the deduplicator keeps both and none of them occurs among the
  contract citations: the count of the claim is \<open>0 + 2 - 0 = 2\<close>. The merge appends
  the first without its \<open>chunk_id\<close>; the test of line 277 then reads that record's
  missing \<open>chunk_id\<close> as null, takes the second citation for a repetition, and drops
  it. One citation is emitted.
\<close>

theorem installment_citation_without_chunk_dropped:
  "dedupe_sources (PList []) = Inr []
   \<and> dedupe_sources (PList [PDict [(PStr ''field'', PStr ''price''), (PStr ''chunk_id'', PStr ''c1'')],
                             PDict [(PStr ''field'', PStr ''price'')]])
       = Inr [PDict [(PStr ''field'', PStr ''price''), (PStr ''chunk_id'', PStr ''c1'')],
              PDict [(PStr ''field'', PStr ''price'')]]
   \<and> citation_key (PDict [(PStr ''field'', PStr ''price''), (PStr ''chunk_id'', PStr ''c1'')])
       \<noteq> citation_key (PDict [(PStr ''field'', PStr ''price'')])
   \<and> merge_results_with_cutouts
         [PDict [(PStr ''sources'', PList [])]]
         [PDict [(PStr ''sources'',
            PList [PDict [(PStr ''field'', PStr ''price''), (PStr ''chunk_id'', PStr ''c1'')],
                   PDict [(PStr ''field'', PStr ''price'')]])]]
         []
       = Inr [PDict [(PStr ''unit'', PDict []),
                     (PStr ''sources'',
                        PList [PDict [(PStr ''field'', PStr ''price''), (PStr ''chunk_file_key'', PStr ''c1'')]]),
                     (PStr ''confidence'', PDict [])]]"
  by (simp add: merge_eval citation_key_def source_field_def source_chunk_def)

section \<open>Installment plans and confidence of a merged unit\<close>

lemma merge_unit_fields:
  assumes "merge_unit i cu ir s3 = Inr mu"
  shows "\<exists>u c u' c'. py_get cu ''unit'' (PDict []) = Inr u \<and>
      py_get cu ''confidence'' (PDict []) = Inr c \<and>
      installment_data i ir u c = Inr (u', c') \<and>
      py_subscript mu ''unit'' = Inr u' \<and> py_subscript mu ''confidence'' = Inr c'"
  using merge_unit_Inr [OF assms] by auto

lemma installment_data_Inr:
  assumes "installment_data i ir u c = Inr (u', c')" and "i < length ir"
  shows "\<exists>ub plans cb. py_get (ir ! i) ''unit'' (PDict []) = Inr ub \<and>
      py_get ub ''installmentPlans'' (PList []) = Inr plans \<and>
      (if truthy plans then py_setitem u ''installmentPlans'' plans else Inr u) = Inr u' \<and>
      py_get (ir ! i) ''confidence'' (PDict []) = Inr cb \<and>
      py_update c cb = Inr c'"
  using assms unfolding installment_data_def list_index_def
  by (auto split: sum.splits)

text \<open>
  C6. When the installment counterpart of unit \<open>i\<close> exists and its
  \<open>installmentPlans\<close> is non-empty (truthy, as \<^verbatim>\<open>if installment_plans:\<close> tests it), the
  merged unit's field map holds exactly that collection under \<open>installmentPlans\<close> and
  the contract unit's value under every other key. When the counterpart is absent, or its
  \<open>installmentPlans\<close> is empty or missing, the merged field map is the contract unit's.
\<close>

theorem installment_plans_overwrite:
  assumes run: "merge_results_with_cutouts contract_result installment_result s3 = Inr merged"
    and i: "i < length contract_result"
  shows "\<exists>ua. py_get (contract_result ! i) ''unit'' (PDict []) = Inr ua \<and>
     (i < length installment_result \<longrightarrow>
        (\<exists>ub plans.
           py_get (installment_result ! i) ''unit'' (PDict []) = Inr ub \<and>
           py_get ub ''installmentPlans'' (PList []) = Inr plans \<and>
           (truthy plans \<longrightarrow>
              (\<exists>da dm. ua = PDict da \<and> py_subscript (merged ! i) ''unit'' = Inr (PDict dm) \<and>
                 dict_lookup dm (PStr ''installmentPlans'') = Some plans \<and>
                 (\<forall>k. k \<noteq> PStr ''installmentPlans'' \<longrightarrow> dict_lookup dm k = dict_lookup da k))) \<and>
           (\<not> truthy plans \<longrightarrow> py_subscript (merged ! i) ''unit'' = Inr ua))) \<and>
     (\<not> i < length installment_result \<longrightarrow> py_subscript (merged ! i) ''unit'' = Inr ua)"
proof -
  from merge_unit_fields [OF merge_results_units(2) [OF run i]]
  obtain ua c u' c' where ua: "py_get (contract_result ! i) ''unit'' (PDict []) = Inr ua"
    and d: "installment_data i installment_result ua c = Inr (u', c')"
    and out: "py_subscript (merged ! i) ''unit'' = Inr u'"
    by blast
  have absent: "py_subscript (merged ! i) ''unit'' = Inr ua" if "\<not> i < length installment_result"
    using that d out by (simp add: installment_data_def)
  have present: "\<exists>ub plans.
           py_get (installment_result ! i) ''unit'' (PDict []) = Inr ub \<and>
           py_get ub ''installmentPlans'' (PList []) = Inr plans \<and>
           (truthy plans \<longrightarrow>
              (\<exists>da dm. ua = PDict da \<and> py_subscript (merged ! i) ''unit'' = Inr (PDict dm) \<and>
                 dict_lookup dm (PStr ''installmentPlans'') = Some plans \<and>
                 (\<forall>k. k \<noteq> PStr ''installmentPlans'' \<longrightarrow> dict_lookup dm k = dict_lookup da k))) \<and>
           (\<not> truthy plans \<longrightarrow> py_subscript (merged ! i) ''unit'' = Inr ua)"
    if b: "i < length installment_result"
  proof -
    from installment_data_Inr [OF d b] obtain ub plans
      where ub: "py_get (installment_result ! i) ''unit'' (PDict []) = Inr ub"
        and plans: "py_get ub ''installmentPlans'' (PList []) = Inr plans"
        and set: "(if truthy plans then py_setitem ua ''installmentPlans'' plans else Inr ua) = Inr u'"
      by blast
    have empty: "py_subscript (merged ! i) ''unit'' = Inr ua" if "\<not> truthy plans"
      using that set out by simp
    have full: "\<exists>da dm. ua = PDict da \<and> py_subscript (merged ! i) ''unit'' = Inr (PDict dm) \<and>
                 dict_lookup dm (PStr ''installmentPlans'') = Some plans \<and>
                 (\<forall>k. k \<noteq> PStr ''installmentPlans'' \<longrightarrow> dict_lookup dm k = dict_lookup da k)"
      if t: "truthy plans"
    proof -
      from t set have s: "py_setitem ua ''installmentPlans'' plans = Inr u'" by simp
      then obtain da where da: "ua = PDict da" by (cases ua) auto
      with s have u': "u' = PDict (dict_store da (PStr ''installmentPlans'') plans)" by simp
      show ?thesis
        using da u' out by (simp add: dict_lookup_store)
    qed
    from ub plans empty full show ?thesis by blast
  qed
  from ua absent present show ?thesis by blast
qed

theorem installment_plans_overwrite_witness:
  "merge_results_with_cutouts
      [PDict [(PStr ''unit'', PDict [(PStr ''buyerName'', PStr ''Ana''),
                                     (PStr ''installmentPlans'', PList [PStr ''X''])])]]
      [PDict [(PStr ''unit'', PDict [(PStr ''installmentPlans'', PList [PStr ''Y'', PStr ''Z''])])]]
      []
    = Inr [PDict [(PStr ''unit'', PDict [(PStr ''buyerName'', PStr ''Ana''),
                                         (PStr ''installmentPlans'', PList [PStr ''Y'', PStr ''Z''])]),
                  (PStr ''sources'', PList []),
                  (PStr ''confidence'', PDict [])]]
   \<and> (\<exists>ua. py_get (PDict [(PStr ''unit'', PDict [(PStr ''buyerName'', PStr ''Ana''),
                                     (PStr ''installmentPlans'', PList [PStr ''X''])])]) ''unit'' (PDict []) = Inr ua
        \<and> (\<exists>da dm. ua = PDict da \<and>
              dm = [(PStr ''buyerName'', PStr ''Ana''),
                    (PStr ''installmentPlans'', PList [PStr ''Y'', PStr ''Z''])] \<and>
              dict_lookup dm (PStr ''installmentPlans'') = Some (PList [PStr ''Y'', PStr ''Z'']) \<and>
              dict_lookup dm (PStr ''buyerName'') = dict_lookup da (PStr ''buyerName'')))"
proof -
  let ?cr = "[PDict [(PStr ''unit'', PDict [(PStr ''buyerName'', PStr ''Ana''),
                                     (PStr ''installmentPlans'', PList [PStr ''X''])])]]"
  let ?ir = "[PDict [(PStr ''unit'', PDict [(PStr ''installmentPlans'', PList [PStr ''Y'', PStr ''Z''])])]]"
  have run: "merge_results_with_cutouts ?cr ?ir []
    = Inr [PDict [(PStr ''unit'', PDict [(PStr ''buyerName'', PStr ''Ana''),
                                         (PStr ''installmentPlans'', PList [PStr ''Y'', PStr ''Z''])]),
                  (PStr ''sources'', PList []),
                  (PStr ''confidence'', PDict [])]]"
    by (simp add: merge_eval)
  have i: "0 < length ?cr" by simp
  from installment_plans_overwrite [OF run i] run show ?thesis
    by simp
qed

text \<open>
  C7. When the installment counterpart of unit \<open>i\<close> exists, the merged confidence map
  gives every key the installment unit's value where the installment confidence map has
  the key, and the contract unit's value otherwise; its keys are those of either map.
\<close>

theorem confidence_precedence:
  assumes run: "merge_results_with_cutouts contract_result installment_result s3 = Inr merged"
    and i: "i < length contract_result" and b: "i < length installment_result"
    and cb: "py_get (installment_result ! i) ''confidence'' (PDict []) = Inr (PDict cb)"
    and distinct: "distinct_keys cb"
  shows "\<exists>ca cm. py_get (contract_result ! i) ''confidence'' (PDict []) = Inr (PDict ca) \<and>
     py_subscript (merged ! i) ''confidence'' = Inr (PDict cm) \<and>
     (\<forall>k. dict_lookup cm k = (case dict_lookup cb k of Some v \<Rightarrow> Some v | None \<Rightarrow> dict_lookup ca k)) \<and>
     {k. dict_lookup cm k \<noteq> None} = {k. dict_lookup ca k \<noteq> None} \<union> {k. dict_lookup cb k \<noteq> None}"
proof -
  from merge_unit_fields [OF merge_results_units(2) [OF run i]]
  obtain u c u' c' where c: "py_get (contract_result ! i) ''confidence'' (PDict []) = Inr c"
    and d: "installment_data i installment_result u c = Inr (u', c')"
    and out: "py_subscript (merged ! i) ''confidence'' = Inr c'"
    by blast
  from installment_data_Inr [OF d b] cb have upd: "py_update c (PDict cb) = Inr c'"
    by auto
  then obtain ca where ca: "c = PDict ca" by (cases c) auto
  define cm where "cm = foldl (\<lambda>acc (k, v). dict_store acc k v) ca cb"
  from upd ca have c': "c' = PDict cm" by (simp add: cm_def)
  have look: "dict_lookup cm k = (case dict_lookup cb k of Some v \<Rightarrow> Some v | None \<Rightarrow> dict_lookup ca k)"
    for k unfolding cm_def by (rule dict_lookup_update [OF distinct])
  have "{k. dict_lookup cm k \<noteq> None} = {k. dict_lookup ca k \<noteq> None} \<union> {k. dict_lookup cb k \<noteq> None}"
    by (auto simp: look split: option.splits)
  with c ca out c' look show ?thesis by blast
qed

theorem confidence_precedence_witness:
  "merge_results_with_cutouts
      [PDict [(PStr ''confidence'', PDict [(PStr ''f1'', PStr ''high''), (PStr ''f2'', PStr ''low'')])]]
      [PDict [(PStr ''confidence'', PDict [(PStr ''f1'', PStr ''medium''), (PStr ''f3'', PStr ''high'')])]]
      []
    = Inr [PDict [(PStr ''unit'', PDict []),
                  (PStr ''sources'', PList []),
                  (PStr ''confidence'', PDict [(PStr ''f1'', PStr ''medium''), (PStr ''f2'', PStr ''low''),
                                               (PStr ''f3'', PStr ''high'')])]]
   \<and> distinct_keys [(PStr ''f1'', PStr ''medium''), (PStr ''f3'', PStr ''high'')]
   \<and> dict_lookup [(PStr ''f1'', PStr ''medium''), (PStr ''f2'', PStr ''low''), (PStr ''f3'', PStr ''high'')]
        (PStr ''f1'') = Some (PStr ''medium'')
   \<and> dict_lookup [(PStr ''f1'', PStr ''medium''), (PStr ''f2'', PStr ''low''), (PStr ''f3'', PStr ''high'')]
        (PStr ''f2'') = Some (PStr ''low'')"
proof -
  let ?cr = "[PDict [(PStr ''confidence'', PDict [(PStr ''f1'', PStr ''high''), (PStr ''f2'', PStr ''low'')])]]"
  let ?ir = "[PDict [(PStr ''confidence'', PDict [(PStr ''f1'', PStr ''medium''), (PStr ''f3'', PStr ''high'')])]]"
  have run: "merge_results_with_cutouts ?cr ?ir []
    = Inr [PDict [(PStr ''unit'', PDict []),
                  (PStr ''sources'', PList []),
                  (PStr ''confidence'', PDict [(PStr ''f1'', PStr ''medium''), (PStr ''f2'', PStr ''low''),
                                               (PStr ''f3'', PStr ''high'')])]]"
    by (simp add: merge_eval)
  have i: "0 < length ?cr" and b: "0 < length ?ir" by simp_all
  have cb: "py_get (?ir ! 0) ''confidence'' (PDict []) =
      Inr (PDict [(PStr ''f1'', PStr ''medium''), (PStr ''f3'', PStr ''high'')])"
    by simp
  have dk: "distinct_keys [(PStr ''f1'', PStr ''medium''), (PStr ''f3'', PStr ''high'')]"
    by (simp add: distinct_keys_def)
  from confidence_precedence [OF run i b cb dk] run dk show ?thesis
    by simp
qed

section \<open>The source records of a merged unit\<close>

lemma contract_source_Inr:
  assumes "contract_source n s3 x = Inr y"
  shows "is_dict x \<and> (\<exists>cfk.
      (if truthy (s3_uris s3 n (source_field x)) then py_first (s3_uris s3 n (source_field x))
       else Inr (if \<not> py_eq (source_chunk x) (PStr ''calculated'') then source_chunk x else PNone)) = Inr cfk \<and>
      y = PDict [(PStr ''field'', source_field x), (PStr ''chunk_id'', source_chunk x),
                 (PStr ''chunk_file_key'', cfk)])"
proof -
  from assms obtain f c where f: "py_get x ''field'' PNone = Inr f"
    and c: "py_get x ''chunk_id'' PNone = Inr c"
    unfolding contract_source_def by (auto split: sum.splits)
  have fx: "source_field x = f" "source_chunk x = c" "is_dict x"
    using f c by (simp_all add: py_get_field py_get_chunk py_get_Inr_is_dict [OF f])
  from assms f c fx(3) show ?thesis
    unfolding contract_source_def fx(1,2) by (auto split: sum.splits)
qed

lemma installment_source_Inr:
  assumes "installment_source n s3 f c = Inr y"
  shows "\<exists>cfk. (if truthy (s3_uris s3 n f) then py_first (s3_uris s3 n f) else Inr c) = Inr cfk \<and>
      y = PDict [(PStr ''field'', f), (PStr ''chunk_file_key'', cfk)]"
  using assms unfolding installment_source_def by (auto split: sum.splits)

lemma s3_uris_first:
  "dict_lookup s3 (PStr (field_key n f)) = Some (PList (loc # locs)) \<Longrightarrow>
   truthy (s3_uris s3 n f) \<and> py_first (s3_uris s3 n f) = Inr loc"
  by (simp add: s3_uris_def)

lemma merge_unit_sources:
  assumes "merge_unit i cu ir s3 = Inr mu"
  shows "\<exists>sa da as kept bs.
      py_get cu ''sources'' (PList []) = Inr sa \<and> dedupe_sources sa = Inr da \<and>
      py_subscript mu ''sources'' = Inr (PList (as @ bs)) \<and>
      list_all2 (\<lambda>x y. contract_source (Suc i) s3 x = Inr y) da as \<and>
      list_all2 (\<lambda>x y. is_dict x \<and>
        installment_source (Suc i) s3 (source_field x) (source_chunk x) = Inr y) kept bs \<and>
      (i < length ir \<longrightarrow> (\<exists>sb db. py_get (ir ! i) ''sources'' (PList []) = Inr sb \<and>
          dedupe_sources sb = Inr db \<and> subseq kept db)) \<and>
      (\<not> i < length ir \<longrightarrow> kept = [])"
proof -
  from merge_unit_Inr [OF assms] obtain srcs srcs'
    where a: "contract_sources (Suc i) s3 cu = Inr srcs"
      and b: "installment_sources i ir s3 srcs = Inr srcs'"
      and mu: "py_subscript mu ''sources'' = Inr (PList srcs')"
    by auto
  from contract_sources_Inr [OF a] obtain sa da
    where sa: "py_get cu ''sources'' (PList []) = Inr sa" "dedupe_sources sa = Inr da"
      "list_all2 (\<lambda>x y. contract_source (Suc i) s3 x = Inr y) da srcs"
    by blast
  show ?thesis
  proof (cases "i < length ir")
    case True
    from installment_sources_Inr [OF b True] obtain sb db kept ys
      where "py_get (ir ! i) ''sources'' (PList []) = Inr sb" "dedupe_sources sb = Inr db"
        "subseq kept db" "srcs' = srcs @ ys"
        "list_all2 (\<lambda>x y. is_dict x \<and>
          installment_source (Suc i) s3 (source_field x) (source_chunk x) = Inr y) kept ys"
      by blast
    with sa mu True show ?thesis by blast
  next
    case False
    with b have "srcs' = srcs @ []" by (simp add: installment_sources_absent)
    with sa mu False show ?thesis
      by (intro exI [of _ sa] exI [of _ da] exI [of _ srcs] exI [of _ "[]"]) simp
  qed
qed

text \<open>
  C8. Every source record of merged unit \<open>i\<close>, from either pass, carries a field and a
  \<open>chunk_file_key\<close>; when the artifact map holds a non-empty list of locators under
  \<open>unit{i+1}_{field}\<close>, the \<open>chunk_file_key\<close> is the first locator of that list,
  whatever the later ones are.
\<close>

theorem artifact_first_wins:
  assumes run: "merge_results_with_cutouts contract_result installment_result s3 = Inr merged"
    and i: "i < length contract_result"
  shows "\<exists>srcs. py_subscript (merged ! i) ''sources'' = Inr (PList srcs) \<and>
     (\<forall>s \<in> set srcs. \<exists>f cfk.
        py_subscript s ''field'' = Inr f \<and> py_subscript s ''chunk_file_key'' = Inr cfk \<and>
        (\<forall>loc locs. dict_lookup s3 (PStr (field_key (Suc i) f)) = Some (PList (loc # locs)) \<longrightarrow>
           cfk = loc))"
proof -
  let ?ok = "\<lambda>s. \<exists>f cfk.
        py_subscript s ''field'' = Inr f \<and> py_subscript s ''chunk_file_key'' = Inr cfk \<and>
        (\<forall>loc locs. dict_lookup s3 (PStr (field_key (Suc i) f)) = Some (PList (loc # locs)) \<longrightarrow>
           cfk = loc)"
  from merge_unit_sources [OF merge_results_units(2) [OF run i]]
  obtain da as kept bs
    where out: "py_subscript (merged ! i) ''sources'' = Inr (PList (as @ bs))"
      and as: "list_all2 (\<lambda>x y. contract_source (Suc i) s3 x = Inr y) da as"
      and bs: "list_all2 (\<lambda>x y. is_dict x \<and>
        installment_source (Suc i) s3 (source_field x) (source_chunk x) = Inr y) kept bs"
    by blast
  have "?ok s" if "s \<in> set as" for s
  proof -
    from that as obtain x where "contract_source (Suc i) s3 x = Inr s"
      by (auto simp: in_set_conv_nth list_all2_conv_all_nth)
    from contract_source_Inr [OF this] show ?thesis
      by (auto dest!: s3_uris_first [of s3 "Suc i"])
  qed
  moreover have "?ok s" if "s \<in> set bs" for s
  proof -
    from that bs obtain x where "installment_source (Suc i) s3 (source_field x) (source_chunk x) = Inr s"
      by (auto simp: in_set_conv_nth list_all2_conv_all_nth)
    from installment_source_Inr [OF this] show ?thesis
      by (auto dest!: s3_uris_first [of s3 "Suc i"])
  qed
  ultimately have "\<forall>s \<in> set (as @ bs). ?ok s" by auto
  with out show ?thesis by blast
qed

theorem artifact_first_wins_witness:
  "merge_results_with_cutouts
      [PDict [(PStr ''sources'', PList [PDict [(PStr ''field'', PStr ''buyerName''), (PStr ''chunk_id'', PStr ''c7'')]])]]
      [PDict [(PStr ''sources'', PList [PDict [(PStr ''field'', PStr ''plan''), (PStr ''chunk_id'', PStr ''c9'')]])]]
      [(PStr ''unit1_buyerName'', PList [PStr ''loc1'', PStr ''loc2'']),
       (PStr ''unit1_plan'', PList [PStr ''loc3'', PStr ''loc4''])]
    = Inr [PDict [(PStr ''unit'', PDict []),
                  (PStr ''sources'', PList
                     [PDict [(PStr ''field'', PStr ''buyerName''), (PStr ''chunk_id'', PStr ''c7''),
                             (PStr ''chunk_file_key'', PStr ''loc1'')],
                      PDict [(PStr ''field'', PStr ''plan''), (PStr ''chunk_file_key'', PStr ''loc3'')]]),
                  (PStr ''confidence'', PDict [])]]
   \<and> field_key (Suc 0) (PStr ''buyerName'') = ''unit1_buyerName''
   \<and> (\<exists>srcs. py_subscript
         (PDict [(PStr ''unit'', PDict []),
                  (PStr ''sources'', PList
                     [PDict [(PStr ''field'', PStr ''buyerName''), (PStr ''chunk_id'', PStr ''c7''),
                             (PStr ''chunk_file_key'', PStr ''loc1'')],
                      PDict [(PStr ''field'', PStr ''plan''), (PStr ''chunk_file_key'', PStr ''loc3'')]]),
                  (PStr ''confidence'', PDict [])]) ''sources'' = Inr (PList srcs)
        \<and> py_subscript (srcs ! 0) ''chunk_file_key'' = Inr (PStr ''loc1'')
        \<and> py_subscript (srcs ! 1) ''chunk_file_key'' = Inr (PStr ''loc3''))"
proof -
  let ?cr = "[PDict [(PStr ''sources'', PList [PDict [(PStr ''field'', PStr ''buyerName''), (PStr ''chunk_id'', PStr ''c7'')]])]]"
  let ?ir = "[PDict [(PStr ''sources'', PList [PDict [(PStr ''field'', PStr ''plan''), (PStr ''chunk_id'', PStr ''c9'')]])]]"
  let ?s3 = "[(PStr ''unit1_buyerName'', PList [PStr ''loc1'', PStr ''loc2'']),
       (PStr ''unit1_plan'', PList [PStr ''loc3'', PStr ''loc4''])]"
  have run: "merge_results_with_cutouts ?cr ?ir ?s3
    = Inr [PDict [(PStr ''unit'', PDict []),
                  (PStr ''sources'', PList
                     [PDict [(PStr ''field'', PStr ''buyerName''), (PStr ''chunk_id'', PStr ''c7''),
                             (PStr ''chunk_file_key'', PStr ''loc1'')],
                      PDict [(PStr ''field'', PStr ''plan''), (PStr ''chunk_file_key'', PStr ''loc3'')]]),
                  (PStr ''confidence'', PDict [])]]"
    by (simp add: merge_eval)
  have i: "0 < length ?cr" by simp
  have key: "field_key (Suc 0) (PStr ''buyerName'') = ''unit1_buyerName''"
    by (simp add: field_key_def str_of_nat.simps)
  from artifact_first_wins [OF run i] run key show ?thesis
    by simp
qed

lemma no_artifact_falsy: "no_artifact s3 n f \<Longrightarrow> \<not> truthy (s3_uris s3 n f)"
  by (auto simp: no_artifact_def s3_uris_def)

text \<open>
  C10. In merged unit \<open>i\<close> the source records that come from the contract citations
  (the first ones, one per deduplicated contract citation) have the keys \<open>field\<close>,
  \<open>chunk_id\<close>, \<open>chunk_file_key\<close>; every record after them, appended from the
  installment citations, has the keys \<open>field\<close> and \<open>chunk_file_key\<close> only.
\<close>

theorem source_record_keys:
  assumes run: "merge_results_with_cutouts contract_result installment_result s3 = Inr merged"
    and i: "i < length contract_result"
  shows "\<exists>sa da srcs.
     py_get (contract_result ! i) ''sources'' (PList []) = Inr sa \<and> dedupe_sources sa = Inr da \<and>
     py_subscript (merged ! i) ''sources'' = Inr (PList srcs) \<and> length da \<le> length srcs \<and>
     (\<forall>j<length srcs. \<exists>d. srcs ! j = PDict d \<and>
        map fst d = (if j < length da
                     then [PStr ''field'', PStr ''chunk_id'', PStr ''chunk_file_key'']
                     else [PStr ''field'', PStr ''chunk_file_key'']))"
proof -
  from merge_unit_sources [OF merge_results_units(2) [OF run i]]
  obtain sa da as kept bs
    where sa: "py_get (contract_result ! i) ''sources'' (PList []) = Inr sa" "dedupe_sources sa = Inr da"
      and out: "py_subscript (merged ! i) ''sources'' = Inr (PList (as @ bs))"
      and as: "list_all2 (\<lambda>x y. contract_source (Suc i) s3 x = Inr y) da as"
      and bs: "list_all2 (\<lambda>x y. is_dict x \<and>
        installment_source (Suc i) s3 (source_field x) (source_chunk x) = Inr y) kept bs"
    by blast
  have len: "length as = length da" using as by (simp add: list_all2_lengthD)
  have "\<exists>d. (as @ bs) ! j = PDict d \<and>
        map fst d = (if j < length da
                     then [PStr ''field'', PStr ''chunk_id'', PStr ''chunk_file_key'']
                     else [PStr ''field'', PStr ''chunk_file_key''])"
    if j: "j < length (as @ bs)" for j
  proof (cases "j < length da")
    case True
    from list_all2_nthD [OF as True] have "contract_source (Suc i) s3 (da ! j) = Inr (as ! j)" .
    from contract_source_Inr [OF this] True len show ?thesis
      by (auto simp: nth_append)
  next
    case False
    with j len have k: "j - length as < length bs" by simp
    from list_all2_nthD2 [OF bs k]
    have "installment_source (Suc i) s3 (source_field (kept ! (j - length as)))
        (source_chunk (kept ! (j - length as))) = Inr (bs ! (j - length as))"
      by simp
    from installment_source_Inr [OF this] False len show ?thesis
      by (auto simp: nth_append)
  qed
  with sa out len show ?thesis
    by (intro exI [of _ sa] exI [of _ da] exI [of _ "as @ bs"]) simp
qed

theorem source_record_keys_witness:
  "merge_results_with_cutouts
      [PDict [(PStr ''sources'', PList [PDict [(PStr ''field'', PStr ''buyerName''), (PStr ''chunk_id'', PStr ''c7'')]])]]
      [PDict [(PStr ''sources'', PList [PDict [(PStr ''field'', PStr ''plan''), (PStr ''chunk_id'', PStr ''c9'')]])]]
      []
    = Inr [PDict [(PStr ''unit'', PDict []),
                  (PStr ''sources'', PList
                     [PDict [(PStr ''field'', PStr ''buyerName''), (PStr ''chunk_id'', PStr ''c7''),
                             (PStr ''chunk_file_key'', PStr ''c7'')],
                      PDict [(PStr ''field'', PStr ''plan''), (PStr ''chunk_file_key'', PStr ''c9'')]]),
                  (PStr ''confidence'', PDict [])]]
   \<and> (\<exists>da srcs.
        dedupe_sources (PList [PDict [(PStr ''field'', PStr ''buyerName''), (PStr ''chunk_id'', PStr ''c7'')]]) = Inr da \<and>
        srcs = [PDict [(PStr ''field'', PStr ''buyerName''), (PStr ''chunk_id'', PStr ''c7''),
                             (PStr ''chunk_file_key'', PStr ''c7'')],
                      PDict [(PStr ''field'', PStr ''plan''), (PStr ''chunk_file_key'', PStr ''c9'')]] \<and>
        length da = 1 \<and> length srcs = 2)"
proof -
  let ?cr = "[PDict [(PStr ''sources'', PList [PDict [(PStr ''field'', PStr ''buyerName''), (PStr ''chunk_id'', PStr ''c7'')]])]]"
  let ?ir = "[PDict [(PStr ''sources'', PList [PDict [(PStr ''field'', PStr ''plan''), (PStr ''chunk_id'', PStr ''c9'')]])]]"
  have run: "merge_results_with_cutouts ?cr ?ir []
    = Inr [PDict [(PStr ''unit'', PDict []),
                  (PStr ''sources'', PList
                     [PDict [(PStr ''field'', PStr ''buyerName''), (PStr ''chunk_id'', PStr ''c7''),
                             (PStr ''chunk_file_key'', PStr ''c7'')],
                      PDict [(PStr ''field'', PStr ''plan''), (PStr ''chunk_file_key'', PStr ''c9'')]]),
                  (PStr ''confidence'', PDict [])]]"
    by (simp add: merge_eval)
  have i: "0 < length ?cr" by simp
  have d: "dedupe_sources (PList [PDict [(PStr ''field'', PStr ''buyerName''), (PStr ''chunk_id'', PStr ''c7'')]])
    = Inr [PDict [(PStr ''field'', PStr ''buyerName''), (PStr ''chunk_id'', PStr ''c7'')]]"
    by (simp add: dedupe_sources_def)
  from source_record_keys [OF run i] run d show ?thesis
    by simp
qed

text \<open>
  C1. In merged unit \<open>i\<close>, a deduplicated contract citation whose chunk identifier is
  the string \<open>calculated\<close> and whose field has no artifact (no entry under
  \<open>unit{i+1}_{field}\<close>, or an empty list) is emitted with \<open>chunk_file_key\<close> null.
  An installment citation that is appended (\<open>kept\<close> lists them, in order) and whose
  field has no artifact is emitted with its chunk identifier as \<open>chunk_file_key\<close>,
  whatever it is, the string \<open>calculated\<close> included.
\<close>

theorem calculated_asymmetry:
  assumes run: "merge_results_with_cutouts contract_result installment_result s3 = Inr merged"
    and i: "i < length contract_result"
  shows "\<exists>sa da kept srcs.
     py_get (contract_result ! i) ''sources'' (PList []) = Inr sa \<and> dedupe_sources sa = Inr da \<and>
     py_subscript (merged ! i) ''sources'' = Inr (PList srcs) \<and>
     length srcs = length da + length kept \<and>
     (i < length installment_result \<longrightarrow>
        (\<exists>sb db. py_get (installment_result ! i) ''sources'' (PList []) = Inr sb \<and>
           dedupe_sources sb = Inr db \<and> subseq kept db)) \<and>
     (\<not> i < length installment_result \<longrightarrow> kept = []) \<and>
     (\<forall>j<length da.
        source_chunk (da ! j) = PStr ''calculated'' \<and> no_artifact s3 (Suc i) (source_field (da ! j)) \<longrightarrow>
        py_subscript (srcs ! j) ''field'' = Inr (source_field (da ! j)) \<and>
        py_subscript (srcs ! j) ''chunk_file_key'' = Inr PNone) \<and>
     (\<forall>j<length kept.
        no_artifact s3 (Suc i) (source_field (kept ! j)) \<longrightarrow>
        py_subscript (srcs ! (length da + j)) ''field'' = Inr (source_field (kept ! j)) \<and>
        py_subscript (srcs ! (length da + j)) ''chunk_file_key'' = Inr (source_chunk (kept ! j)))"
proof -
  from merge_unit_sources [OF merge_results_units(2) [OF run i]]
  obtain sa da as kept bs
    where sa: "py_get (contract_result ! i) ''sources'' (PList []) = Inr sa" "dedupe_sources sa = Inr da"
      and out: "py_subscript (merged ! i) ''sources'' = Inr (PList (as @ bs))"
      and as: "list_all2 (\<lambda>x y. contract_source (Suc i) s3 x = Inr y) da as"
      and bs: "list_all2 (\<lambda>x y. is_dict x \<and>
        installment_source (Suc i) s3 (source_field x) (source_chunk x) = Inr y) kept bs"
      and present: "i < length installment_result \<longrightarrow>
        (\<exists>sb db. py_get (installment_result ! i) ''sources'' (PList []) = Inr sb \<and>
           dedupe_sources sb = Inr db \<and> subseq kept db)"
      and absent: "\<not> i < length installment_result \<longrightarrow> kept = []"
    by blast
  have len: "length as = length da" "length bs = length kept"
    using as bs by (simp_all add: list_all2_lengthD)
  have a: "py_subscript ((as @ bs) ! j) ''field'' = Inr (source_field (da ! j)) \<and>
        py_subscript ((as @ bs) ! j) ''chunk_file_key'' = Inr PNone"
    if j: "j < length da" and calc: "source_chunk (da ! j) = PStr ''calculated''"
      and none: "no_artifact s3 (Suc i) (source_field (da ! j))" for j
  proof -
    from list_all2_nthD [OF as j] have "contract_source (Suc i) s3 (da ! j) = Inr (as ! j)" .
    from contract_source_Inr [OF this] j len calc no_artifact_falsy [OF none] show ?thesis
      by (auto simp: nth_append)
  qed
  have b: "py_subscript ((as @ bs) ! (length da + j)) ''field'' = Inr (source_field (kept ! j)) \<and>
        py_subscript ((as @ bs) ! (length da + j)) ''chunk_file_key'' = Inr (source_chunk (kept ! j))"
    if j: "j < length kept" and none: "no_artifact s3 (Suc i) (source_field (kept ! j))" for j
  proof -
    from list_all2_nthD [OF bs j]
    have "installment_source (Suc i) s3 (source_field (kept ! j)) (source_chunk (kept ! j))
        = Inr (bs ! j)"
      by simp
    from installment_source_Inr [OF this] j len no_artifact_falsy [OF none] show ?thesis
      by (auto simp: nth_append)
  qed
  from sa out len present absent a b show ?thesis
    by (intro exI [of _ sa] exI [of _ da] exI [of _ kept] exI [of _ "as @ bs"]) simp
qed

theorem calculated_asymmetry_witness:
  "merge_results_with_cutouts
      [PDict [(PStr ''sources'', PList [PDict [(PStr ''field'', PStr ''total''), (PStr ''chunk_id'', PStr ''calculated'')]])]]
      [PDict [(PStr ''sources'', PList [PDict [(PStr ''field'', PStr ''sum''), (PStr ''chunk_id'', PStr ''calculated'')]])]]
      [(PStr ''unit1_total'', PList [])]
    = Inr [PDict [(PStr ''unit'', PDict []),
                  (PStr ''sources'', PList
                     [PDict [(PStr ''field'', PStr ''total''), (PStr ''chunk_id'', PStr ''calculated''),
                             (PStr ''chunk_file_key'', PNone)],
                      PDict [(PStr ''field'', PStr ''sum''), (PStr ''chunk_file_key'', PStr ''calculated'')]]),
                  (PStr ''confidence'', PDict [])]]
   \<and> no_artifact [(PStr ''unit1_total'', PList [])] (Suc 0) (PStr ''total'')
   \<and> no_artifact [(PStr ''unit1_total'', PList [])] (Suc 0) (PStr ''sum'')
   \<and> py_subscript
        ([PDict [(PStr ''field'', PStr ''total''), (PStr ''chunk_id'', PStr ''calculated''),
                 (PStr ''chunk_file_key'', PNone)],
          PDict [(PStr ''field'', PStr ''sum''), (PStr ''chunk_file_key'', PStr ''calculated'')]] ! 0)
        ''chunk_file_key'' = Inr PNone
   \<and> py_subscript
        ([PDict [(PStr ''field'', PStr ''total''), (PStr ''chunk_id'', PStr ''calculated''),
                 (PStr ''chunk_file_key'', PNone)],
          PDict [(PStr ''field'', PStr ''sum''), (PStr ''chunk_file_key'', PStr ''calculated'')]] ! 1)
        ''chunk_file_key'' = Inr (PStr ''calculated'')"
proof -
  let ?cr = "[PDict [(PStr ''sources'', PList [PDict [(PStr ''field'', PStr ''total''), (PStr ''chunk_id'', PStr ''calculated'')]])]]"
  let ?ir = "[PDict [(PStr ''sources'', PList [PDict [(PStr ''field'', PStr ''sum''), (PStr ''chunk_id'', PStr ''calculated'')]])]]"
  let ?s3 = "[(PStr ''unit1_total'', PList [])]"
  have run: "merge_results_with_cutouts ?cr ?ir ?s3
    = Inr [PDict [(PStr ''unit'', PDict []),
                  (PStr ''sources'', PList
                     [PDict [(PStr ''field'', PStr ''total''), (PStr ''chunk_id'', PStr ''calculated''),
                             (PStr ''chunk_file_key'', PNone)],
                      PDict [(PStr ''field'', PStr ''sum''), (PStr ''chunk_file_key'', PStr ''calculated'')]]),
                  (PStr ''confidence'', PDict [])]]"
    by (simp add: merge_eval)
  have i: "0 < length ?cr" by simp
  have none: "no_artifact ?s3 (Suc 0) (PStr ''total'')" "no_artifact ?s3 (Suc 0) (PStr ''sum'')"
    by (simp_all add: no_artifact_def field_key_def str_of_nat.simps)
  from calculated_asymmetry [OF run i] run none show ?thesis
    by simp
qed

section \<open>The merge returns on well-shaped input\<close>




















end
